theory Spec2Isabelle
  imports Complex_Main "HOL-Library.Sublist" "HOL-Library.Multiset"
begin

section \<open>Data model (PageCrawler.ts, ActionAnalyzer.ts)\<close>

text \<open>
  JavaScript numbers are modelled as reals: coordinates, distances and confidence scores
  are compared and added exactly. Strings are character lists; an attribute object
  \<open>Record<string, string>\<close> is a partial map from attribute name to value, where a
  missing key is \<open>undefined\<close>.
\<close>

record Position =
  x_coord :: real
  y_coord :: real

record ElementInfo =
  selector :: string
  description :: string
  type :: string
  attributes :: "string \<rightharpoonup> string"
  text_el :: string
  isInteractive :: bool
  position :: Position

record CrawlResult =
  url :: string
  elements :: "ElementInfo list"
  timestamp :: nat

record UserAction =
  type_ua :: string
  name_ua :: string
  description_ua :: string
  elements_ua :: "ElementInfo list"
  url_ua :: string
  confidence :: real

record LogLine =
  category :: string
  message :: string
  level :: nat

section \<open>String operations\<close>

text \<open>\<open>String.prototype.toLowerCase\<close> on the ASCII letters; other characters are kept.\<close>

definition lower_char :: "char \<Rightarrow> char" where
  "lower_char c =
     (case map_of (zip ''ABCDEFGHIJKLMNOPQRSTUVWXYZ'' ''abcdefghijklmnopqrstuvwxyz'') c of
        None \<Rightarrow> c
      | Some d \<Rightarrow> d)"

definition toLowerCase :: "string \<Rightarrow> string" where
  "toLowerCase s = map lower_char s"

text \<open>\<open>s.includes(sub)\<close>: \<open>sub\<close> occurs in \<open>s\<close> as a contiguous substring.\<close>

fun includes_str :: "string \<Rightarrow> string \<Rightarrow> bool" where
  "includes_str [] sub = (sub = [])"
| "includes_str (c # cs) sub = (prefix sub (c # cs) \<or> includes_str cs sub)"

text \<open>
  \<open>el.attributes.k?.toLowerCase().includes(sub)\<close>: \<open>undefined\<close> (falsy) when the attribute
  is missing.
\<close>

definition attr_includes :: "ElementInfo \<Rightarrow> string \<Rightarrow> string \<Rightarrow> bool" where
  "attr_includes el k sub =
     (case attributes el k of
        None \<Rightarrow> False
      | Some v \<Rightarrow> includes_str (toLowerCase v) sub)"

text \<open>\<open>el.attributes.k === v\<close>.\<close>

definition attr_is :: "ElementInfo \<Rightarrow> string \<Rightarrow> string \<Rightarrow> bool" where
  "attr_is el k v = (attributes el k = Some v)"

text \<open>The decimal rendering of a length inside a template literal.\<close>

definition digit_char :: "nat \<Rightarrow> char" where
  "digit_char d = ''0123456789'' ! d"

function string_of_nat :: "nat \<Rightarrow> string" where
  "string_of_nat n =
     (if n < 10 then [digit_char n] else string_of_nat (n div 10) @ [digit_char (n mod 10)])"
  by pat_completeness auto
termination
  by (relation "measure (\<lambda>n. n)") auto

declare string_of_nat.simps [simp del]

section \<open>Spatial helpers (ActionAnalyzer.ts, lines 416-430)\<close>

definition calculateDistance :: "Position \<Rightarrow> Position \<Rightarrow> real" where
  "calculateDistance p1 p2 =
     sqrt ((x_coord p2 - x_coord p1)\<^sup>2 + (y_coord p2 - y_coord p1)\<^sup>2)"

text \<open>
  \<open>[...candidates].sort((a, b) => distA - distB)\<close>: a copy of the candidates in ascending
  distance to the reference; \<open>Array.prototype.sort\<close> is stable, as is \<open>sort_key\<close>.
\<close>

definition findNearbyElements :: "ElementInfo \<Rightarrow> ElementInfo list \<Rightarrow> ElementInfo list" where
  "findNearbyElements reference candidates =
     sort_key (\<lambda>c. calculateDistance (position reference) (position c)) candidates"

section \<open>Login detector (ActionAnalyzer.ts, lines 60-152)\<close>

definition is_usernameInput :: "ElementInfo \<Rightarrow> bool" where
  "is_usernameInput el \<longleftrightarrow>
     type el = ''input'' \<and>
     (attr_is el ''type'' ''text'' \<or> attr_is el ''type'' ''email'') \<and>
     (attr_includes el ''name'' ''user'' \<or>
      attr_includes el ''name'' ''email'' \<or>
      attr_includes el ''name'' ''login'' \<or>
      attr_includes el ''id'' ''user'' \<or>
      attr_includes el ''id'' ''email'' \<or>
      attr_includes el ''id'' ''login'' \<or>
      attr_includes el ''placeholder'' ''user'' \<or>
      attr_includes el ''placeholder'' ''email'' \<or>
      includes_str (toLowerCase (description el)) ''username'' \<or>
      includes_str (toLowerCase (description el)) ''email'')"

definition is_passwordInput :: "ElementInfo \<Rightarrow> bool" where
  "is_passwordInput el \<longleftrightarrow>
     type el = ''input'' \<and>
     (attr_is el ''type'' ''password'' \<or>
      attr_includes el ''name'' ''pass'' \<or>
      attr_includes el ''id'' ''pass'' \<or>
      attr_includes el ''placeholder'' ''pass'' \<or>
      includes_str (toLowerCase (description el)) ''password'')"

definition is_loginSubmitButton :: "ElementInfo \<Rightarrow> bool" where
  "is_loginSubmitButton el \<longleftrightarrow>
     (type el = ''button'' \<or> type el = ''input'') \<and>
     (attr_is el ''type'' ''submit'' \<or>
      includes_str (toLowerCase (text_el el)) ''log in'' \<or>
      includes_str (toLowerCase (text_el el)) ''login'' \<or>
      includes_str (toLowerCase (text_el el)) ''sign in'' \<or>
      includes_str (toLowerCase (text_el el)) ''signin'' \<or>
      includes_str (toLowerCase (description el)) ''login'' \<or>
      includes_str (toLowerCase (description el)) ''sign in'')"

definition usernameInputs :: "CrawlResult \<Rightarrow> ElementInfo list" where
  "usernameInputs cr = filter is_usernameInput (elements cr)"

definition passwordInputs :: "CrawlResult \<Rightarrow> ElementInfo list" where
  "passwordInputs cr = filter is_passwordInput (elements cr)"

definition submitButtons_login :: "CrawlResult \<Rightarrow> ElementInfo list" where
  "submitButtons_login cr = filter is_loginSubmitButton (elements cr)"

definition full_login :: "string \<Rightarrow> ElementInfo list \<Rightarrow> UserAction" where
  "full_login u els =
     \<lparr>type_ua = ''login'', name_ua = ''Login'',
      description_ua = ''Login form with username/email and password fields'',
      elements_ua = els, url_ua = u, confidence = 0.9\<rparr>"

definition partial_login :: "string \<Rightarrow> ElementInfo list \<Rightarrow> UserAction" where
  "partial_login u els =
     \<lparr>type_ua = ''login'', name_ua = ''Login'',
      description_ua = ''Partial login form with username/email and password fields'',
      elements_ua = els, url_ua = u, confidence = 0.7\<rparr>"

text \<open>
  One turn of the loop over the username inputs (lines 114-148): the action list is
  extended by at most one action.
\<close>

definition login_step ::
  "string \<Rightarrow> ElementInfo list \<Rightarrow> ElementInfo list \<Rightarrow> UserAction list \<Rightarrow> ElementInfo
     \<Rightarrow> UserAction list" where
  "login_step u pws subs actions usernameInput =
     (case findNearbyElements usernameInput pws of
        [] \<Rightarrow> actions
      | pw0 # _ \<Rightarrow>
          (case findNearbyElements pw0 subs of
             [] \<Rightarrow> actions @ [partial_login u [usernameInput, pw0]]
           | sub0 # _ \<Rightarrow> actions @ [full_login u [usernameInput, pw0, sub0]]))"

definition identifyLoginForms :: "CrawlResult \<Rightarrow> UserAction list" where
  "identifyLoginForms cr =
     (if usernameInputs cr \<noteq> [] \<and> passwordInputs cr \<noteq> []
      then foldl (login_step (url cr) (passwordInputs cr) (submitButtons_login cr)) []
             (usernameInputs cr)
      else [])"

section \<open>Search detector (ActionAnalyzer.ts, lines 157-213)\<close>

definition is_searchInput :: "ElementInfo \<Rightarrow> bool" where
  "is_searchInput el \<longleftrightarrow>
     type el = ''input'' \<and>
     (attr_is el ''type'' ''search'' \<or>
      attr_includes el ''name'' ''search'' \<or>
      attr_includes el ''id'' ''search'' \<or>
      attr_includes el ''placeholder'' ''search'' \<or>
      includes_str (toLowerCase (description el)) ''search'')"

definition is_searchButton :: "ElementInfo \<Rightarrow> bool" where
  "is_searchButton el \<longleftrightarrow>
     (type el = ''button'' \<or> type el = ''input'') \<and>
     (attr_is el ''type'' ''submit'' \<or>
      includes_str (toLowerCase (text_el el)) ''search'' \<or>
      includes_str (toLowerCase (description el)) ''search'' \<or>
      attr_includes el ''class'' ''search'')"

definition searchInputs :: "CrawlResult \<Rightarrow> ElementInfo list" where
  "searchInputs cr = filter is_searchInput (elements cr)"

definition searchButtons :: "CrawlResult \<Rightarrow> ElementInfo list" where
  "searchButtons cr = filter is_searchButton (elements cr)"

definition full_search :: "string \<Rightarrow> ElementInfo list \<Rightarrow> UserAction" where
  "full_search u els =
     \<lparr>type_ua = ''search'', name_ua = ''Search'',
      description_ua = ''Search interface with input field and search button'',
      elements_ua = els, url_ua = u, confidence = 0.9\<rparr>"

definition input_only_search :: "string \<Rightarrow> ElementInfo list \<Rightarrow> UserAction" where
  "input_only_search u els =
     \<lparr>type_ua = ''search'', name_ua = ''Search'',
      description_ua = ''Search input field'',
      elements_ua = els, url_ua = u, confidence = 0.7\<rparr>"

definition search_step ::
  "string \<Rightarrow> ElementInfo list \<Rightarrow> UserAction list \<Rightarrow> ElementInfo \<Rightarrow> UserAction list" where
  "search_step u btns actions searchInput =
     (case findNearbyElements searchInput btns of
        [] \<Rightarrow> actions @ [input_only_search u [searchInput]]
      | btn0 # _ \<Rightarrow> actions @ [full_search u [searchInput, btn0]])"

definition identifySearchInterfaces :: "CrawlResult \<Rightarrow> UserAction list" where
  "identifySearchInterfaces cr =
     foldl (search_step (url cr) (searchButtons cr)) [] (searchInputs cr)"

section \<open>Navigation detector (ActionAnalyzer.ts, lines 218-294)\<close>

definition is_navElement :: "ElementInfo \<Rightarrow> bool" where
  "is_navElement el \<longleftrightarrow>
     type el = ''nav'' \<or>
     attr_is el ''role'' ''navigation'' \<or>
     attr_includes el ''class'' ''nav'' \<or>
     attr_includes el ''id'' ''nav'' \<or>
     attr_includes el ''class'' ''menu'' \<or>
     attr_includes el ''id'' ''menu''"

text \<open>\<open>el.type === "a" && el.attributes.href\<close>: the href is present and not the empty string.\<close>

definition is_link :: "ElementInfo \<Rightarrow> bool" where
  "is_link el \<longleftrightarrow>
     type el = ''a'' \<and>
     (case attributes el ''href'' of None \<Rightarrow> False | Some v \<Rightarrow> v \<noteq> [])"

definition navElements :: "CrawlResult \<Rightarrow> ElementInfo list" where
  "navElements cr = filter is_navElement (elements cr)"

definition links :: "CrawlResult \<Rightarrow> ElementInfo list" where
  "links cr = filter is_link (elements cr)"

definition in_nav_box :: "ElementInfo \<Rightarrow> ElementInfo \<Rightarrow> bool" where
  "in_nav_box navElement link \<longleftrightarrow>
     y_coord (position link) \<ge> y_coord (position navElement) \<and>
     y_coord (position link) \<le> y_coord (position navElement) + 100 \<and>
     x_coord (position link) \<ge> x_coord (position navElement) \<and>
     x_coord (position link) \<le> x_coord (position navElement) + 1000"

definition container_nav :: "string \<Rightarrow> ElementInfo \<Rightarrow> ElementInfo list \<Rightarrow> UserAction" where
  "container_nav u navElement navLinks =
     \<lparr>type_ua = ''navigation'', name_ua = ''Navigation Menu'',
      description_ua = ''Navigation menu with '' @ string_of_nat (length navLinks) @ '' links'',
      elements_ua = navElement # navLinks, url_ua = u, confidence = 0.8\<rparr>"

definition nav_step ::
  "string \<Rightarrow> ElementInfo list \<Rightarrow> UserAction list \<Rightarrow> ElementInfo \<Rightarrow> UserAction list" where
  "nav_step u lks actions navElement =
     (let navLinks = filter (in_nav_box navElement) lks
      in if length navLinks \<ge> 3 then actions @ [container_nav u navElement navLinks]
         else actions)"

text \<open>
  The inner loop over the existing groups (lines 264-271): the link is pushed onto the
  first group whose first link is less than 20 away vertically; \<open>None\<close> is
  \<open>added = false\<close> after the loop. Groups are created with one link and only grow, so
  the equation for an empty group is never reached.
\<close>

fun add_to_group :: "ElementInfo \<Rightarrow> ElementInfo list list \<Rightarrow> ElementInfo list list option" where
  "add_to_group link [] = None"
| "add_to_group link ([] # rest) = map_option ((#) []) (add_to_group link rest)"
| "add_to_group link ((firstLink # others) # rest) =
     (if \<bar>y_coord (position link) - y_coord (position firstLink)\<bar> < 20
      then Some (((firstLink # others) @ [link]) # rest)
      else map_option ((#) (firstLink # others)) (add_to_group link rest))"

definition group_step :: "ElementInfo list list \<Rightarrow> ElementInfo \<Rightarrow> ElementInfo list list" where
  "group_step groups link =
     (case add_to_group link groups of
        Some groups' \<Rightarrow> groups'
      | None \<Rightarrow> groups @ [[link]])"

definition linkGroups :: "ElementInfo list \<Rightarrow> ElementInfo list list" where
  "linkGroups lks = foldl group_step [] lks"

definition group_nav :: "string \<Rightarrow> ElementInfo list \<Rightarrow> UserAction" where
  "group_nav u grp =
     \<lparr>type_ua = ''navigation'', name_ua = ''Navigation Menu'',
      description_ua =
        ''Horizontal navigation menu with '' @ string_of_nat (length grp) @ '' links'',
      elements_ua = grp, url_ua = u, confidence = 0.7\<rparr>"

definition group_emit :: "string \<Rightarrow> UserAction list \<Rightarrow> ElementInfo list \<Rightarrow> UserAction list" where
  "group_emit u actions grp =
     (if length grp \<ge> 3 then actions @ [group_nav u grp] else actions)"

definition identifyNavigationMenus :: "CrawlResult \<Rightarrow> UserAction list" where
  "identifyNavigationMenus cr =
     (let actions = foldl (nav_step (url cr) (links cr)) [] (navElements cr)
      in if length actions = 0
         then foldl (group_emit (url cr)) actions (linkGroups (links cr))
         else actions)"

section \<open>Form detector (ActionAnalyzer.ts, lines 299-411)\<close>

definition is_formElement :: "ElementInfo \<Rightarrow> bool" where
  "is_formElement el \<longleftrightarrow> type el = ''form''"

definition is_inputElement :: "ElementInfo \<Rightarrow> bool" where
  "is_inputElement el \<longleftrightarrow>
     type el = ''input'' \<or> type el = ''textarea'' \<or> type el = ''select''"

definition is_formSubmitButton :: "ElementInfo \<Rightarrow> bool" where
  "is_formSubmitButton el \<longleftrightarrow>
     (type el = ''button'' \<or> type el = ''input'') \<and>
     (attr_is el ''type'' ''submit'' \<or>
      includes_str (toLowerCase (text_el el)) ''submit'' \<or>
      includes_str (toLowerCase (text_el el)) ''send'' \<or>
      includes_str (toLowerCase (text_el el)) ''register'' \<or>
      includes_str (toLowerCase (text_el el)) ''sign up'')"

definition in_form_box :: "ElementInfo \<Rightarrow> ElementInfo \<Rightarrow> bool" where
  "in_form_box formElement el \<longleftrightarrow>
     y_coord (position el) \<ge> y_coord (position formElement) \<and>
     y_coord (position el) \<le> y_coord (position formElement) + 500 \<and>
     x_coord (position el) \<ge> x_coord (position formElement) \<and>
     x_coord (position el) \<le> x_coord (position formElement) + 1000"

definition name_like :: "ElementInfo \<Rightarrow> bool" where
  "name_like input \<longleftrightarrow>
     attr_includes input ''name'' ''name'' \<or>
     attr_includes input ''id'' ''name'' \<or>
     attr_includes input ''placeholder'' ''name''"

definition email_like :: "ElementInfo \<Rightarrow> bool" where
  "email_like input \<longleftrightarrow>
     attr_is input ''type'' ''email'' \<or>
     attr_includes input ''name'' ''email'' \<or>
     attr_includes input ''id'' ''email'' \<or>
     attr_includes input ''placeholder'' ''email''"

definition password_like :: "ElementInfo \<Rightarrow> bool" where
  "password_like input \<longleftrightarrow>
     attr_is input ''type'' ''password'' \<or>
     attr_includes input ''name'' ''password'' \<or>
     attr_includes input ''id'' ''password'' \<or>
     attr_includes input ''placeholder'' ''password''"

definition message_like :: "ElementInfo \<Rightarrow> bool" where
  "message_like input \<longleftrightarrow>
     type input = ''textarea'' \<or>
     attr_includes input ''name'' ''message'' \<or>
     attr_includes input ''id'' ''message'' \<or>
     attr_includes input ''placeholder'' ''message''"

definition subject_like :: "ElementInfo \<Rightarrow> bool" where
  "subject_like input \<longleftrightarrow>
     attr_includes input ''name'' ''subject'' \<or>
     attr_includes input ''id'' ''subject'' \<or>
     attr_includes input ''placeholder'' ''subject''"

text \<open>Lines 345-397: form type, form name and confidence from the fields present.\<close>

definition classify_form :: "ElementInfo list \<Rightarrow> string \<times> string \<times> real" where
  "classify_form formInputs =
     (let hasNameField = (\<exists>input \<in> set formInputs. name_like input);
          hasEmailField = (\<exists>input \<in> set formInputs. email_like input);
          hasPasswordField = (\<exists>input \<in> set formInputs. password_like input);
          hasMessageField = (\<exists>input \<in> set formInputs. message_like input);
          hasSubjectField = (\<exists>input \<in> set formInputs. subject_like input)
      in if hasNameField \<and> hasEmailField \<and> hasPasswordField
           then (''registration'', ''Registration Form'', 0.9)
         else if hasNameField \<and> hasEmailField \<and> hasMessageField
           then (''contact'', ''Contact Form'', 0.9)
         else if hasEmailField \<and> hasSubjectField \<and> hasMessageField
           then (''contact'', ''Contact Form'', 0.9)
         else (''form'', ''Form'', 0.7))"

definition form_action ::
  "string \<Rightarrow> ElementInfo \<Rightarrow> ElementInfo list \<Rightarrow> ElementInfo list \<Rightarrow> UserAction" where
  "form_action u formElement formInputs formSubmitButtons =
     (case classify_form formInputs of
        (formType, formName, conf) \<Rightarrow>
          \<lparr>type_ua = formType, name_ua = formName,
           description_ua =
             formName @ '' with '' @ string_of_nat (length formInputs) @ '' input fields'',
           elements_ua = formElement # formInputs @ formSubmitButtons,
           url_ua = u, confidence = conf\<rparr>)"

definition form_step ::
  "string \<Rightarrow> ElementInfo list \<Rightarrow> ElementInfo list \<Rightarrow> UserAction list \<Rightarrow> ElementInfo
     \<Rightarrow> UserAction list" where
  "form_step u inputs buttons actions formElement =
     (let formInputs = filter (in_form_box formElement) inputs;
          formSubmitButtons = filter (in_form_box formElement) buttons
      in if length formInputs \<ge> 2 \<and> length formSubmitButtons > 0
         then actions @ [form_action u formElement formInputs formSubmitButtons]
         else actions)"

definition formElements :: "CrawlResult \<Rightarrow> ElementInfo list" where
  "formElements cr = filter is_formElement (elements cr)"

definition inputElements :: "CrawlResult \<Rightarrow> ElementInfo list" where
  "inputElements cr = filter is_inputElement (elements cr)"

definition submitButtons_form :: "CrawlResult \<Rightarrow> ElementInfo list" where
  "submitButtons_form cr = filter is_formSubmitButton (elements cr)"

definition identifyForms :: "CrawlResult \<Rightarrow> UserAction list" where
  "identifyForms cr =
     foldl (form_step (url cr) (inputElements cr) (submitButtons_form cr)) [] (formElements cr)"

section \<open>The classifier (ActionAnalyzer.ts, lines 23-55)\<close>

text \<open>
  The logger callback is the only effect of the analyzer; it is modelled as a log that
  each call extends. \<open>analyzeActions\<close> takes the log before the call and returns the
  actions with the log after it.
\<close>

definition analyzeActions :: "LogLine list \<Rightarrow> CrawlResult \<Rightarrow> UserAction list \<times> LogLine list" where
  "analyzeActions log0 cr =
     (let log1 = log0 @
            [\<lparr>category = ''action-analyzer'',
              message = ''Analyzing '' @ string_of_nat (length (elements cr))
                        @ '' elements for user actions'',
              level = 1\<rparr>];
          actions = [];
          actions = actions @ identifyLoginForms cr;
          actions = actions @ identifySearchInterfaces cr;
          actions = actions @ identifyNavigationMenus cr;
          actions = actions @ identifyForms cr;
          log2 = log1 @
            [\<lparr>category = ''action-analyzer'',
              message = ''Identified '' @ string_of_nat (length actions)
                        @ '' potential user actions'',
              level = 1\<rparr>]
      in (actions, log2))"

section \<open>The crawl loop (src/unnamed/part_000, lines 203-340)\<close>

text \<open>
  The components of a parsed \<open>URL\<close> object that the loop reads. Node's \<open>URL\<close>
  constructor is not part of the repository: the loop takes it as a parameter, a function
  from the input and an optional base to the parsed object, \<open>None\<close> when it throws.
\<close>

record URL =
  href :: string
  protocol :: string
  hostname :: string
  pathname :: string
  search :: string
  hash :: string

type_synonym URL_ctor = "string \<Rightarrow> string option \<Rightarrow> URL option"

text \<open>
  The page visit of one iteration (lines 227-278) is the second parameter: for the URL
  visited, \<open>Some\<close> of the href values extracted from the page, or \<open>None\<close> when crawling,
  storing or extracting throws, which the \<open>catch\<close> of line 327 logs. A URL is visited at
  most once in a run, so a function of the URL describes every run.
\<close>

type_synonym page_visit = "string \<Rightarrow> string list option"

record crawl_state =
  urlQueue :: "string list"
  crawledUrls :: "string list"

text \<open>\<open>Set.prototype.add\<close> on a set kept in insertion order.\<close>

definition set_add :: "string \<Rightarrow> string list \<Rightarrow> string list" where
  "set_add v s = (if v \<in> set s then s else s @ [v])"

definition startUrl :: string where
  "startUrl = ''https://www.testdummy.ai/dashboard''"

definition maxUrlsToCrawl :: nat where
  "maxUrlsToCrawl = 10"

text \<open>Line 298.\<close>

definition cleanUrl :: "URL \<Rightarrow> string" where
  "cleanUrl linkUrlObj = protocol linkUrlObj @ ''//'' @ hostname linkUrlObj @ pathname linkUrlObj"

text \<open>Lines 301-302.\<close>

definition is_session_page :: "string \<Rightarrow> bool" where
  "is_session_page c \<longleftrightarrow>
     includes_str c ''/login'' \<or> includes_str c ''/logout'' \<or>
     includes_str c ''/signin'' \<or> includes_str c ''/signout''"

text \<open>
  The body of the loop over the links of a page (lines 282-321). Every \<open>continue\<close> and
  the \<open>catch\<close> of line 315 leave the state as it is.
\<close>

definition process_link ::
  "URL_ctor \<Rightarrow> URL \<Rightarrow> string \<Rightarrow> crawl_state \<Rightarrow> string \<Rightarrow> crawl_state" where
  "process_link new_URL baseUrlObj pageUrl st link =
     (case new_URL link (Some pageUrl) of
        None \<Rightarrow> st
      | Some resolved \<Rightarrow>
          (case new_URL (href resolved) None of
             None \<Rightarrow> st
           | Some linkUrlObj \<Rightarrow>
               if hostname linkUrlObj \<noteq> hostname baseUrlObj then st
               else if is_session_page (cleanUrl linkUrlObj) then st
               else if cleanUrl linkUrlObj \<notin> set (crawledUrls st) \<and>
                       cleanUrl linkUrlObj \<notin> set (urlQueue st)
                 then st\<lparr>urlQueue := urlQueue st @ [cleanUrl linkUrlObj]\<rparr>
               else st))"

definition process_links ::
  "URL_ctor \<Rightarrow> URL \<Rightarrow> string \<Rightarrow> crawl_state \<Rightarrow> string list \<Rightarrow> crawl_state" where
  "process_links new_URL baseUrlObj pageUrl st lks =
     foldl (process_link new_URL baseUrlObj pageUrl) st lks"

text \<open>
  One iteration of the \<open>while\<close> loop (lines 210-339). The loop condition makes the queue
  non-empty, so \<open>shift\<close> returns its head.
\<close>

definition iteration :: "URL_ctor \<Rightarrow> page_visit \<Rightarrow> URL \<Rightarrow> crawl_state \<Rightarrow> crawl_state" where
  "iteration new_URL page baseUrlObj st =
     (case urlQueue st of
        [] \<Rightarrow> st
      | u # rest \<Rightarrow>
          if u \<in> set (crawledUrls st) then st\<lparr>urlQueue := rest\<rparr>
          else
            (let st1 = st\<lparr>urlQueue := rest, crawledUrls := set_add u (crawledUrls st)\<rparr>
             in case page u of
                  None \<Rightarrow> st1
                | Some lks \<Rightarrow> process_links new_URL baseUrlObj u st1 lks))"

definition loop_condition :: "nat \<Rightarrow> crawl_state \<Rightarrow> bool" where
  "loop_condition budget st \<longleftrightarrow> length (urlQueue st) > 0 \<and> length (crawledUrls st) < budget"

text \<open>
  The \<open>while\<close> loop of line 209. It ends: an iteration either visits a new URL, and the
  visited set grows towards the budget, or drops an already visited head of the queue.
\<close>

function crawl_loop ::
  "URL_ctor \<Rightarrow> page_visit \<Rightarrow> URL \<Rightarrow> nat \<Rightarrow> crawl_state \<Rightarrow> crawl_state" where
  "crawl_loop new_URL page baseUrlObj budget st =
     (if loop_condition budget st
      then crawl_loop new_URL page baseUrlObj budget (iteration new_URL page baseUrlObj st)
      else st)"
  by pat_completeness auto
termination
proof (relation "measures [\<lambda>(n, p, b, budget, st). budget - length (crawledUrls st),
                           \<lambda>(n, p, b, budget, st). length (urlQueue st)]")
  show "wf (measures [\<lambda>(n, p, b, budget, st). budget - length (crawledUrls st),
                      \<lambda>(n, p, b, budget, st). length (urlQueue st)])"
    by simp
next
  fix new_URL :: URL_ctor and page :: page_visit and baseUrlObj :: URL
    and budget :: nat and st :: crawl_state
  assume c: "loop_condition budget st"
  have link: "crawledUrls (process_link new_URL baseUrlObj u s l) = crawledUrls s" for u s l
    by (simp add: process_link_def split: option.splits)
  have lks: "crawledUrls (process_links new_URL baseUrlObj u s ls) = crawledUrls s" for u s ls
    unfolding process_links_def by (induction ls arbitrary: s) (simp_all add: link)
  from c obtain u rest where q: "urlQueue st = u # rest"
    by (cases "urlQueue st") (simp_all add: loop_condition_def)
  from c have b: "length (crawledUrls st) < budget"
    by (simp add: loop_condition_def)
  show "((new_URL, page, baseUrlObj, budget, iteration new_URL page baseUrlObj st),
         (new_URL, page, baseUrlObj, budget, st))
        \<in> measures [\<lambda>(n, p, b, budget, st). budget - length (crawledUrls st),
                     \<lambda>(n, p, b, budget, st). length (urlQueue st)]"
    using q b by (auto simp: iteration_def set_add_def lks Let_def split: option.splits)
qed

declare crawl_loop.simps [simp del]

text \<open>
  Lines 203-340 of \<open>main\<close>: the queue starts with the start URL, the visited set is
  empty, and \<open>new URL(startUrl)\<close> gives the base; when that throws, the \<open>catch\<close> of
  line 385 ends the run before the loop (\<open>None\<close>).
\<close>

definition crawl :: "URL_ctor \<Rightarrow> page_visit \<Rightarrow> string \<Rightarrow> nat \<Rightarrow> crawl_state option" where
  "crawl new_URL page start budget =
     (case new_URL start None of
        None \<Rightarrow> None
      | Some baseUrlObj \<Rightarrow>
          Some (crawl_loop new_URL page baseUrlObj budget
                  \<lparr>urlQueue = [start], crawledUrls = []\<rparr>))"

definition main_crawl :: "URL_ctor \<Rightarrow> page_visit \<Rightarrow> crawl_state option" where
  "main_crawl new_URL page = crawl new_URL page startUrl maxUrlsToCrawl"

section \<open>Properties of the detectors' output\<close>

text \<open>
  \<open>nearest reference c candidates\<close>: \<open>c\<close> is a candidate at minimal distance from the
  reference.
\<close>

definition nearest :: "ElementInfo \<Rightarrow> ElementInfo \<Rightarrow> ElementInfo list \<Rightarrow> bool" where
  "nearest reference c candidates \<longleftrightarrow>
     c \<in> set candidates \<and>
     (\<forall>c' \<in> set candidates.
        calculateDistance (position reference) (position c)
          \<le> calculateDistance (position reference) (position c'))"

text \<open>
  What the login detector emits for a username input \<open>u\<close>: an action over \<open>u\<close> and a
  nearest password input, with a submit button nearest to that password input when there
  is any submit button.
\<close>

definition login_emitted_for :: "CrawlResult \<Rightarrow> ElementInfo \<Rightarrow> UserAction \<Rightarrow> bool" where
  "login_emitted_for cr u a \<longleftrightarrow>
     type_ua a = ''login'' \<and> url_ua a = url cr \<and>
     (\<exists>pw \<in> set (passwordInputs cr).
        nearest u pw (passwordInputs cr) \<and>
        (if submitButtons_login cr = []
         then confidence a = 0.7 \<and> elements_ua a = [u, pw]
         else \<exists>sb \<in> set (submitButtons_login cr).
                nearest pw sb (submitButtons_login cr) \<and>
                confidence a = 0.9 \<and> elements_ua a = [u, pw, sb]))"

text \<open>
  The grouping of the links by vertical position. \<open>close_to\<close> is the test of line 266.
  In a greedy grouping every link is in exactly one group, every member of a group is
  close to the group's first link, and no member of a group is close to the first link of
  an earlier group (it would have joined that group).
\<close>

definition close_to :: "ElementInfo \<Rightarrow> ElementInfo \<Rightarrow> bool" where
  "close_to link firstLink \<longleftrightarrow>
     \<bar>y_coord (position link) - y_coord (position firstLink)\<bar> < 20"

fun first_fit :: "ElementInfo list list \<Rightarrow> bool" where
  "first_fit [] = True"
| "first_fit (g # later) =
     ((\<forall>h \<in> set later. \<forall>l \<in> set h. \<not> close_to l (hd g)) \<and> first_fit later)"

definition greedy_grouping :: "ElementInfo list \<Rightarrow> ElementInfo list list \<Rightarrow> bool" where
  "greedy_grouping lks groups \<longleftrightarrow>
     mset (concat groups) = mset lks \<and>
     (\<forall>g \<in> set groups. g \<noteq> [] \<and> (\<forall>l \<in> set g. close_to l (hd g))) \<and>
     first_fit groups"

section \<open>Properties of the frontier\<close>



section \<open>A sample site\<close>

text \<open>
  The values of Node's \<open>URL\<close> constructor at the inputs of the examples: absolute inputs
  parse with or without a base, rooted paths resolve against a base on the site's host.
  The examples use no other input but \<open>http://\<close>, which has no host and makes the
  constructor throw.
\<close>

definition mk_URL :: "string \<Rightarrow> string \<Rightarrow> string \<Rightarrow> string \<Rightarrow> string \<Rightarrow> URL" where
  "mk_URL proto host path query fragment =
     \<lparr>href = proto @ ''//'' @ host @ path @ query @ fragment,
      protocol = proto, hostname = host, pathname = path, search = query, hash = fragment\<rparr>"

definition absolute_rows :: "(string \<times> URL) list" where
  "absolute_rows =
     [(''https://www.testdummy.ai/dashboard'',
         mk_URL ''https:'' ''www.testdummy.ai'' ''/dashboard'' '''' ''''),
      (''https://www.testdummy.ai/settings'',
         mk_URL ''https:'' ''www.testdummy.ai'' ''/settings'' '''' ''''),
      (''https://www.testdummy.ai/reports'',
         mk_URL ''https:'' ''www.testdummy.ai'' ''/reports'' '''' ''''),
      (''https://www.testdummy.ai/Login'',
         mk_URL ''https:'' ''www.testdummy.ai'' ''/Login'' '''' ''''),
      (''https://www.testdummy.ai/user-login'',
         mk_URL ''https:'' ''www.testdummy.ai'' ''/user-login'' '''' ''''),
      (''https://www.testdummy.ai/login?x=1#y'',
         mk_URL ''https:'' ''www.testdummy.ai'' ''/login'' ''?x=1'' ''#y''),
      (''https://www.testdummy.ai/settings?tab=2'',
         mk_URL ''https:'' ''www.testdummy.ai'' ''/settings'' ''?tab=2'' ''''),
      (''https://example.com/about'',
         mk_URL ''https:'' ''example.com'' ''/about'' '''' '''')]"

definition relative_rows :: "(string \<times> URL) list" where
  "relative_rows =
     [(''/settings'', mk_URL ''https:'' ''www.testdummy.ai'' ''/settings'' '''' ''''),
      (''/reports'', mk_URL ''https:'' ''www.testdummy.ai'' ''/reports'' '''' ''''),
      (''/Login'', mk_URL ''https:'' ''www.testdummy.ai'' ''/Login'' '''' ''''),
      (''/user-login'', mk_URL ''https:'' ''www.testdummy.ai'' ''/user-login'' '''' ''''),
      (''/login?x=1#y'', mk_URL ''https:'' ''www.testdummy.ai'' ''/login'' ''?x=1'' ''#y'')]"

definition sample_URL :: URL_ctor where
  "sample_URL input base =
     (case map_of absolute_rows input of
        Some u \<Rightarrow> Some u
      | None \<Rightarrow>
          (case base of
             None \<Rightarrow> None
           | Some b \<Rightarrow>
               (case map_of absolute_rows b of
                  None \<Rightarrow> None
                | Some bu \<Rightarrow>
                    if hostname bu = ''www.testdummy.ai'' then map_of relative_rows input
                    else None)))"

definition sample_page :: page_visit where
  "sample_page u =
     (if u = ''https://www.testdummy.ai/dashboard''
        then Some [''/settings'', ''/login?x=1#y'', ''https://example.com/about'',
                   ''/settings'', ''/reports'', ''http://'']
      else if u = ''https://www.testdummy.ai/settings''
        then Some [''/reports'', ''https://www.testdummy.ai/dashboard'', ''/Login'']
      else None)"

definition dashboard_URL :: URL where
  "dashboard_URL = mk_URL ''https:'' ''www.testdummy.ai'' ''/dashboard'' '''' ''''"

definition start_state :: crawl_state where
  "start_state = \<lparr>urlQueue = [startUrl], crawledUrls = []\<rparr>"

section \<open>Sample pages\<close>

definition email_field :: ElementInfo where
  \<open>email_field =
     \<lparr>selector = ''xpath=/html/body/form/input[1]'',
      description = ''input named "email"'',
      type = ''input'',
      attributes = [''type'' \<mapsto> ''email'', ''name'' \<mapsto> ''email''],
      text_el = '''',
      isInteractive = True,
      position = \<lparr>x_coord = 100, y_coord = 200\<rparr>\<rparr>\<close>

definition password_field :: ElementInfo where
  \<open>password_field =
     \<lparr>selector = ''xpath=/html/body/form/input[2]'',
      description = ''input named "password"'',
      type = ''input'',
      attributes = [''type'' \<mapsto> ''password'', ''name'' \<mapsto> ''password''],
      text_el = '''',
      isInteractive = True,
      position = \<lparr>x_coord = 100, y_coord = 240\<rparr>\<rparr>\<close>

definition login_button :: ElementInfo where
  \<open>login_button =
     \<lparr>selector = ''xpath=/html/body/form/button[1]'',
      description = ''button containing "Log in"'',
      type = ''button'',
      attributes = [''type'' \<mapsto> ''submit''],
      text_el = ''Log in'',
      isInteractive = True,
      position = \<lparr>x_coord = 100, y_coord = 280\<rparr>\<rparr>\<close>

definition login_page :: CrawlResult where
  "login_page =
     \<lparr>url = ''https://www.testdummy.ai/login'',
      elements = [email_field, password_field, login_button],
      timestamp = 0\<rparr>"

definition login_placeholder_field :: ElementInfo where
  \<open>login_placeholder_field =
     \<lparr>selector = ''xpath=/html/body/form/input[1]'',
      description = ''input with placeholder "Login"'',
      type = ''input'',
      attributes = [''type'' \<mapsto> ''text'', ''placeholder'' \<mapsto> ''Login''],
      text_el = '''',
      isInteractive = True,
      position = \<lparr>x_coord = 100, y_coord = 200\<rparr>\<rparr>\<close>

definition search_box :: ElementInfo where
  \<open>search_box =
     \<lparr>selector = ''xpath=/html/body/header/input[1]'',
      description = ''input with placeholder "Search..."'',
      type = ''input'',
      attributes = [''type'' \<mapsto> ''text'', ''placeholder'' \<mapsto> ''Search...''],
      text_el = '''',
      isInteractive = True,
      position = \<lparr>x_coord = 800, y_coord = 20\<rparr>\<rparr>\<close>

definition search_page :: CrawlResult where
  "search_page =
     \<lparr>url = ''https://www.testdummy.ai/dashboard'',
      elements = [search_box],
      timestamp = 0\<rparr>"














definition user_label_field :: ElementInfo where
  \<open>user_label_field =
     \<lparr>selector = ''xpath=/html/body/form/input[1]'',
      description = ''input labeled "User"'',
      type = ''input'',
      attributes = [''type'' \<mapsto> ''text'', ''aria-label'' \<mapsto> ''User''],
      text_el = '''',
      isInteractive = True,
      position = \<lparr>x_coord = 100, y_coord = 200\<rparr>\<rparr>\<close>

section \<open>Auxiliary lemmas\<close>

lemmas str_simps = toLowerCase_def lower_char_def attr_includes_def attr_is_def


lemma foldl_append_steps:
  assumes "\<And>acc x. f acc x = acc @ f [] x"
  shows "foldl f acc xs = acc @ concat (map (f []) xs)"
proof (induction xs arbitrary: acc)
  case Nil
  show ?case by simp
next
  case (Cons x xs)
  have "foldl f acc (x # xs) = foldl f (f acc x) xs" by simp
  also have "\<dots> = f acc x @ concat (map (f []) xs)" by (rule Cons.IH)
  also have "f acc x = acc @ f [] x" by (rule assms)
  finally show ?case by simp
qed

lemma findNearbyElements_Nil: "findNearbyElements r cs = [] \<longleftrightarrow> cs = []"
proof -
  have "length (findNearbyElements r cs) = length cs"
    by (simp add: findNearbyElements_def)
  then show ?thesis by (metis length_0_conv)
qed

lemma findNearbyElements_set [simp]: "set (findNearbyElements r cs) = set cs"
  by (simp add: findNearbyElements_def)

lemma findNearbyElements_hd:
  assumes "findNearbyElements r cs = c # rest"
  shows "nearest r c cs"
proof -
  let ?f = "\<lambda>c. calculateDistance (position r) (position c)"
  have "sorted (map ?f (findNearbyElements r cs))"
    by (simp add: findNearbyElements_def)
  with assms have "\<forall>c' \<in> set rest. ?f c \<le> ?f c'" by simp
  moreover have "set cs = insert c (set rest)"
    using findNearbyElements_set [of r cs] assms by simp
  ultimately show ?thesis by (auto simp: nearest_def)
qed

lemma login_step_append:
  "login_step u pws subs acc x = acc @ login_step u pws subs [] x"
  by (simp add: login_step_def split: list.splits)


lemma login_step_emits:
  assumes "passwordInputs cr \<noteq> []"
  shows "\<exists>a. login_step (url cr) (passwordInputs cr) (submitButtons_login cr) [] u = [a]
             \<and> login_emitted_for cr u a"
proof -
  obtain pw rest where pw: "findNearbyElements u (passwordInputs cr) = pw # rest"
    using assms by (cases "findNearbyElements u (passwordInputs cr)")
      (simp_all add: findNearbyElements_Nil)
  then have n: "nearest u pw (passwordInputs cr)" by (rule findNearbyElements_hd)
  then have m: "pw \<in> set (passwordInputs cr)" by (simp add: nearest_def)
  show ?thesis
  proof (cases "findNearbyElements pw (submitButtons_login cr)")
    case Nil
    then have "submitButtons_login cr = []" by (simp add: findNearbyElements_Nil)
    with Nil pw n m show ?thesis
      by (auto simp: login_step_def login_emitted_for_def partial_login_def)
  next
    case (Cons sb rest')
    then have s: "nearest pw sb (submitButtons_login cr)" by (rule findNearbyElements_hd)
    then have "sb \<in> set (submitButtons_login cr)" by (simp add: nearest_def)
    moreover from this have "submitButtons_login cr \<noteq> []" by auto
    ultimately show ?thesis using Cons pw n m s
      by (auto simp: login_step_def login_emitted_for_def full_login_def)
  qed
qed


lemma search_step_append: "search_step u btns acc x = acc @ search_step u btns [] x"
  by (simp add: search_step_def split: list.splits)

subsection \<open>The sample login page\<close>

lemma login_page_passwordInputs: "passwordInputs login_page = [password_field]"
  by (simp add: passwordInputs_def login_page_def is_passwordInput_def
      email_field_def password_field_def login_button_def str_simps)

lemma login_page_usernameInputs: "usernameInputs login_page = [email_field]"
  by (simp add: usernameInputs_def login_page_def is_usernameInput_def
      email_field_def password_field_def login_button_def str_simps)

lemma login_page_submitButtons: "submitButtons_login login_page = [login_button]"
  by (simp add: submitButtons_login_def login_page_def is_loginSubmitButton_def
      email_field_def password_field_def login_button_def str_simps)

lemma login_page_identifyLoginForms: "identifyLoginForms login_page =
    [full_login ''https://www.testdummy.ai/login'' [email_field, password_field, login_button]]"
  by (simp add: identifyLoginForms_def login_page_passwordInputs login_page_usernameInputs login_page_submitButtons login_step_def findNearbyElements_def)
    (simp add: login_page_def)

lemma findNearbyElements_sample:
  "findNearbyElements email_field [login_button, password_field]
     = [password_field, login_button]"
  by (simp add: findNearbyElements_def calculateDistance_def email_field_def
      login_button_def password_field_def)

subsection \<open>The crawl loop\<close>

lemma process_link_crawledUrls [simp]:
  "crawledUrls (process_link N b p st l) = crawledUrls st"
  by (simp add: process_link_def split: option.splits)

lemma process_links_crawledUrls [simp]:
  "crawledUrls (process_links N b p st ls) = crawledUrls st"
  unfolding process_links_def by (induction ls arbitrary: st) simp_all






lemma iteration_crawled:
  "crawledUrls (iteration N page b st) = crawledUrls st \<or>
   (\<exists>u. u \<notin> set (crawledUrls st) \<and> crawledUrls (iteration N page b st) = crawledUrls st @ [u])"
  by (cases "urlQueue st") (auto simp: iteration_def Let_def set_add_def split: option.splits)

lemma crawl_loop_unfold:
  "loop_condition budget st \<Longrightarrow>
     crawl_loop N page b budget st = crawl_loop N page b budget (iteration N page b st)"
  "\<not> loop_condition budget st \<Longrightarrow> crawl_loop N page b budget st = st"
  by (subst crawl_loop.simps, simp)+

lemma crawl_loop_budget:
  assumes "length (crawledUrls st) \<le> budget" and "distinct (crawledUrls st)"
  shows "length (crawledUrls (crawl_loop N page b budget st)) \<le> budget \<and>
         distinct (crawledUrls (crawl_loop N page b budget st))"
  using assms
proof (induction N page b budget st rule: crawl_loop.induct)
  case (1 N page b budget st)
  show ?case
  proof (cases "loop_condition budget st")
    case False
    then show ?thesis using "1.prems" by (simp add: crawl_loop_unfold)
  next
    case True
    then have lt: "length (crawledUrls st) < budget" by (simp add: loop_condition_def)
    have "length (crawledUrls (iteration N page b st)) \<le> budget \<and>
          distinct (crawledUrls (iteration N page b st))"
      using iteration_crawled [of N page b st] lt "1.prems" by auto
    with "1.IH" [OF True] True show ?thesis by (simp add: crawl_loop_unfold)
  qed
qed


lemma crawl_loop_exhausted:
  "\<not> loop_condition budget (crawl_loop N page b budget st)"
proof (induction N page b budget st rule: crawl_loop.induct)
  case (1 N page b budget st)
  show ?case
  proof (cases "loop_condition budget st")
    case False
    then show ?thesis by (simp add: crawl_loop_unfold)
  next
    case True
    with "1.IH" [OF True] show ?thesis by (simp add: crawl_loop_unfold)
  qed
qed



lemma sample_crawl:
  "crawl sample_URL sample_page startUrl 2 =
     Some \<lparr>urlQueue = [''https://www.testdummy.ai/reports'', ''https://www.testdummy.ai/Login''],
           crawledUrls = [''https://www.testdummy.ai/dashboard'',
                          ''https://www.testdummy.ai/settings'']\<rparr>"
  by code_simp

subsection \<open>Link groups\<close>

lemma close_to_refl [simp]: "close_to l l"
  by (simp add: close_to_def)

lemma add_to_group_Some:
  assumes "add_to_group l gs = Some gs'"
    and "\<forall>g \<in> set gs. g \<noteq> [] \<and> (\<forall>m \<in> set g. close_to m (hd g))"
    and "first_fit gs"
  shows "mset (concat gs') = mset (concat gs) + {#l#} \<and>
         (\<forall>g \<in> set gs'. g \<noteq> [] \<and> (\<forall>m \<in> set g. close_to m (hd g))) \<and>
         first_fit gs' \<and>
         (\<forall>h \<in> set gs'. \<forall>m \<in> set h. m = l \<or> (\<exists>h' \<in> set gs. m \<in> set h'))"
  using assms
proof (induction l gs arbitrary: gs' rule: add_to_group.induct)
  case (1 link)
  then show ?case by simp
next
  case (2 link rest)
  then show ?case by simp
next
  case (3 link firstLink others rest)
  show ?case
  proof (cases "close_to link firstLink")
    case True
    then have "gs' = ((firstLink # others) @ [link]) # rest"
      using "3.prems"(1) by (simp add: close_to_def)
    then show ?thesis using "3.prems"(2,3) True by auto
  next
    case False
    then obtain rest' where r: "add_to_group link rest = Some rest'"
      and g: "gs' = (firstLink # others) # rest'"
      using "3.prems"(1) by (auto simp: close_to_def)
    have nc: "\<not> \<bar>y_coord (position link) - y_coord (position firstLink)\<bar> < 20"
      using False by (simp add: close_to_def)
    have ih: "mset (concat rest') = mset (concat rest) + {#link#} \<and>
         (\<forall>g \<in> set rest'. g \<noteq> [] \<and> (\<forall>m \<in> set g. close_to m (hd g))) \<and>
         first_fit rest' \<and>
         (\<forall>h \<in> set rest'. \<forall>m \<in> set h. m = link \<or> (\<exists>h' \<in> set rest. m \<in> set h'))"
      using "3.IH" [OF nc r] "3.prems"(2,3) by simp
    have sep: "\<forall>h \<in> set rest'. \<forall>m \<in> set h. \<not> close_to m firstLink"
    proof (intro ballI)
      fix h m assume "h \<in> set rest'" "m \<in> set h"
      with ih have "m = link \<or> (\<exists>h' \<in> set rest. m \<in> set h')" by blast
      then show "\<not> close_to m firstLink"
        using False "3.prems"(3) by auto
    qed
    show ?thesis unfolding g using ih sep "3.prems"(2) by auto
  qed
qed

lemma add_to_group_None:
  assumes "add_to_group l gs = None" and "g \<in> set gs" and "g \<noteq> []"
  shows "\<not> close_to l (hd g)"
  using assms
  by (induction l gs rule: add_to_group.induct) (auto simp: close_to_def split: if_splits)

lemma first_fit_snoc:
  "first_fit (gs @ [g]) \<longleftrightarrow> first_fit gs \<and> (\<forall>h \<in> set gs. \<forall>l \<in> set g. \<not> close_to l (hd h))"
  by (induction gs) auto

lemma group_step_greedy:
  assumes "greedy_grouping lks gs"
  shows "greedy_grouping (lks @ [l]) (group_step gs l)"
proof (cases "add_to_group l gs")
  case None
  have "\<forall>h \<in> set gs. \<not> close_to l (hd h)"
    using add_to_group_None [OF None] assms by (auto simp: greedy_grouping_def)
  then show ?thesis
    using None assms by (auto simp: group_step_def greedy_grouping_def first_fit_snoc)
next
  case (Some gs')
  from assms have a: "\<forall>g \<in> set gs. g \<noteq> [] \<and> (\<forall>m \<in> set g. close_to m (hd g))"
    and b: "first_fit gs" and c: "mset (concat gs) = mset lks"
    by (simp_all add: greedy_grouping_def)
  from add_to_group_Some [OF Some a b] c show ?thesis
    using Some by (simp add: group_step_def greedy_grouping_def)
qed

lemma linkGroups_greedy: "greedy_grouping lks (linkGroups lks)"
proof (induction lks rule: rev_induct)
  case Nil
  show ?case by (simp add: linkGroups_def greedy_grouping_def)
next
  case (snoc l lks)
  then show ?case using group_step_greedy [of lks "linkGroups lks" l]
    by (simp add: linkGroups_def)
qed




lemma foldl_group_emit:
  "foldl (group_emit u) acc gs = acc @ map (group_nav u) (filter (\<lambda>g. length g \<ge> 3) gs)"
  by (induction gs arbitrary: acc) (simp_all add: group_emit_def)


subsection \<open>Elements of the emitted actions\<close>

lemma set_foldl_steps:
  assumes "\<And>acc x. f acc x = acc @ f [] x" and "a \<in> set (foldl f [] xs)"
  shows "\<exists>x \<in> set xs. a \<in> set (f [] x)"
  using assms(2) foldl_append_steps [of f "[]" xs, OF assms(1)] by auto

lemma nav_step_append: "nav_step u lks acc x = acc @ nav_step u lks [] x"
  by (simp add: nav_step_def Let_def)

lemma form_step_append: "form_step u ins btns acc x = acc @ form_step u ins btns [] x"
  by (simp add: form_step_def Let_def)

lemma identifyLoginForms_elements:
  assumes "a \<in> set (identifyLoginForms cr)"
  shows "elements_ua a \<noteq> [] \<and> set (elements_ua a) \<subseteq> set (elements cr)"
proof -
  from assms have ne: "passwordInputs cr \<noteq> []"
    and a: "a \<in> set (foldl (login_step (url cr) (passwordInputs cr) (submitButtons_login cr)) []
                       (usernameInputs cr))"
    by (auto simp: identifyLoginForms_def split: if_splits)
  from set_foldl_steps [OF login_step_append a] obtain u
    where u: "u \<in> set (usernameInputs cr)"
      and s: "a \<in> set (login_step (url cr) (passwordInputs cr) (submitButtons_login cr) [] u)"
    by blast
  from login_step_emits [OF ne, of u] s have "login_emitted_for cr u a" by auto
  then show ?thesis
    using u
    by (auto simp: login_emitted_for_def usernameInputs_def passwordInputs_def
        submitButtons_login_def split: if_splits)
qed

lemma identifySearchInterfaces_elements:
  assumes "a \<in> set (identifySearchInterfaces cr)"
  shows "elements_ua a \<noteq> [] \<and> set (elements_ua a) \<subseteq> set (elements cr)"
proof -
  from set_foldl_steps [OF search_step_append assms [unfolded identifySearchInterfaces_def]]
  obtain i where i: "i \<in> set (searchInputs cr)"
    and s: "a \<in> set (search_step (url cr) (searchButtons cr) [] i)"
    by blast
  show ?thesis
  proof (cases "findNearbyElements i (searchButtons cr)")
    case Nil
    with s i show ?thesis
      by (auto simp: search_step_def input_only_search_def searchInputs_def)
  next
    case (Cons b rest)
    then have "b \<in> set (findNearbyElements i (searchButtons cr))" by simp
    then have "b \<in> set (searchButtons cr)" by simp
    with Cons s i show ?thesis
      by (auto simp: search_step_def full_search_def searchInputs_def searchButtons_def)
  qed
qed

lemma linkGroups_members:
  assumes "g \<in> set (linkGroups lks)"
  shows "set g \<subseteq> set lks"
proof -
  have "mset (concat (linkGroups lks)) = mset lks"
    using linkGroups_greedy [of lks] by (simp add: greedy_grouping_def)
  then have "set (concat (linkGroups lks)) = set lks"
    by (rule mset_eq_setD)
  with assms show ?thesis by auto
qed

lemma identifyNavigationMenus_elements:
  assumes "a \<in> set (identifyNavigationMenus cr)"
  shows "elements_ua a \<noteq> [] \<and> set (elements_ua a) \<subseteq> set (elements cr)"
proof (cases "foldl (nav_step (url cr) (links cr)) [] (navElements cr) = []")
  case True
  with assms have "a \<in> set (map (group_nav (url cr))
                     (filter (\<lambda>g. 3 \<le> length g) (linkGroups (links cr))))"
    by (simp add: identifyNavigationMenus_def foldl_group_emit)
  then obtain g where g: "g \<in> set (linkGroups (links cr))" "3 \<le> length g"
    and a: "a = group_nav (url cr) g"
    by auto
  from g(2) have "g \<noteq> []" by auto
  moreover have "set g \<subseteq> set (elements cr)"
    using linkGroups_members [OF g(1)] by (auto simp: links_def)
  ultimately show ?thesis by (simp add: a group_nav_def)
next
  case False
  with assms have "a \<in> set (foldl (nav_step (url cr) (links cr)) [] (navElements cr))"
    by (simp add: identifyNavigationMenus_def)
  from set_foldl_steps [OF nav_step_append this] obtain n
    where "n \<in> set (navElements cr)" "a \<in> set (nav_step (url cr) (links cr) [] n)"
    by blast
  then show ?thesis
    by (auto simp: nav_step_def Let_def container_nav_def navElements_def links_def
        split: if_splits)
qed

lemma identifyForms_elements:
  assumes "a \<in> set (identifyForms cr)"
  shows "elements_ua a \<noteq> [] \<and> set (elements_ua a) \<subseteq> set (elements cr)"
proof -
  from set_foldl_steps [OF form_step_append assms [unfolded identifyForms_def]]
  obtain f where "f \<in> set (formElements cr)"
    and "a \<in> set (form_step (url cr) (inputElements cr) (submitButtons_form cr) [] f)"
    by blast
  then show ?thesis
    by (auto simp: form_step_def Let_def form_action_def formElements_def inputElements_def
        submitButtons_form_def split: if_splits prod.splits)
qed

lemma fst_analyzeActions:
  "fst (analyzeActions log0 cr) =
     identifyLoginForms cr @ identifySearchInterfaces cr @ identifyNavigationMenus cr
       @ identifyForms cr"
  by (simp add: analyzeActions_def Let_def)

subsection \<open>Forms\<close>







subsection \<open>The sample pages of links and of the registration form\<close>














section \<open>The claims\<close>





text \<open>
  C3. A run of the crawl loop visits at most as many URLs as the page budget, and no URL
  twice, whatever the pages link to; the run of \<open>main\<close>, whose budget is 10, visits at
  most 10.
\<close>

theorem crawl_page_budget:
  assumes "crawl N page start budget = Some st"
  shows "length (crawledUrls st) \<le> budget \<and> distinct (crawledUrls st) \<and>
         (\<forall>st'. main_crawl N page = Some st' \<longrightarrow> length (crawledUrls st') \<le> 10)"
proof -
  have run: "length (crawledUrls s) \<le> k \<and> distinct (crawledUrls s)"
    if "crawl N page u k = Some s" for u k s
  proof -
    from that obtain b where
      s: "s = crawl_loop N page b k \<lparr>urlQueue = [u], crawledUrls = []\<rparr>"
      by (auto simp: crawl_def split: option.splits)
    show ?thesis
      unfolding s by (rule crawl_loop_budget) simp_all
  qed
  have "length (crawledUrls st') \<le> 10" if "main_crawl N page = Some st'" for st'
    using run [of startUrl maxUrlsToCrawl st'] that
    by (simp add: main_crawl_def maxUrlsToCrawl_def)
  with run [OF assms] show ?thesis by simp
qed

theorem crawl_page_budget_witness:
  "crawl sample_URL sample_page startUrl 2 =
     Some \<lparr>urlQueue = [''https://www.testdummy.ai/reports'', ''https://www.testdummy.ai/Login''],
           crawledUrls = [''https://www.testdummy.ai/dashboard'',
                          ''https://www.testdummy.ai/settings'']\<rparr> \<and>
   length [''https://www.testdummy.ai/dashboard'', ''https://www.testdummy.ai/settings'']
     \<le> (2::nat)"
  using crawl_page_budget [OF sample_crawl, THEN conjunct1] sample_crawl by simp








text \<open>
  C7. Every action returned by \<open>analyzeActions\<close> has a non-empty list of elements, and
  each of them is an element of the crawl result.
\<close>

theorem actions_reference_elements:
  assumes "a \<in> set (fst (analyzeActions log0 cr))"
  shows "elements_ua a \<noteq> [] \<and> set (elements_ua a) \<subseteq> set (elements cr)"
proof -
  from assms have "a \<in> set (identifyLoginForms cr) \<or> a \<in> set (identifySearchInterfaces cr) \<or>
     a \<in> set (identifyNavigationMenus cr) \<or> a \<in> set (identifyForms cr)"
    by (auto simp: fst_analyzeActions)
  then show ?thesis
    using identifyLoginForms_elements identifySearchInterfaces_elements
      identifyNavigationMenus_elements identifyForms_elements
    by blast
qed

theorem actions_reference_elements_witness:
  "full_login ''https://www.testdummy.ai/login'' [email_field, password_field, login_button]
     \<in> set (fst (analyzeActions [] login_page)) \<and>
   [email_field, password_field, login_button] \<noteq> [] \<and>
   set [email_field, password_field, login_button] \<subseteq> set (elements login_page)"
proof -
  have m: "full_login ''https://www.testdummy.ai/login''
             [email_field, password_field, login_button]
           \<in> set (fst (analyzeActions [] login_page))"
    by (simp add: fst_analyzeActions login_page_identifyLoginForms)
  from actions_reference_elements [OF m] m show ?thesis
    by (simp add: full_login_def)
qed

text \<open>
  C8, as stated, fails: an input of type text whose placeholder is "Login" has the
  substring "login" in its placeholder and in its description, and is not a username
  candidate; nor is an input of type text whose description contains "User" and not
  "username".
\<close>

theorem username_vocabulary_counterexample:
  "type login_placeholder_field = ''input'' \<and>
   attributes login_placeholder_field ''type'' = Some ''text'' \<and>
   attributes login_placeholder_field ''placeholder'' = Some ''Login'' \<and>
   includes_str (toLowerCase ''Login'') ''login'' \<and>
   includes_str (toLowerCase (description login_placeholder_field)) ''login'' \<and>
   \<not> is_usernameInput login_placeholder_field \<and>
   type user_label_field = ''input'' \<and>
   attributes user_label_field ''type'' = Some ''text'' \<and>
   includes_str (toLowerCase (description user_label_field)) ''user'' \<and>
   \<not> is_usernameInput user_label_field"
  by (simp add: login_placeholder_field_def user_label_field_def is_usernameInput_def str_simps)

text \<open>
  C8, amended. An input element whose type attribute is "text" or "email" is a username
  candidate whenever "user", "email" or "login" occurs in its lower-cased name or id
  attribute, or "user" or "email" occurs in its lower-cased placeholder attribute, or
  "username" or "email" occurs in its lower-cased description.
\<close>

theorem username_vocabulary:
  assumes "type el = ''input''"
    and "attributes el ''type'' = Some ''text'' \<or> attributes el ''type'' = Some ''email''"
    and "(\<exists>v. (attributes el ''name'' = Some v \<or> attributes el ''id'' = Some v) \<and>
              (includes_str (toLowerCase v) ''user'' \<or>
               includes_str (toLowerCase v) ''email'' \<or>
               includes_str (toLowerCase v) ''login'')) \<or>
         (\<exists>v. attributes el ''placeholder'' = Some v \<and>
              (includes_str (toLowerCase v) ''user'' \<or>
               includes_str (toLowerCase v) ''email'')) \<or>
         includes_str (toLowerCase (description el)) ''username'' \<or>
         includes_str (toLowerCase (description el)) ''email''"
  shows "is_usernameInput el \<and> (el \<in> set (elements cr) \<longrightarrow> el \<in> set (usernameInputs cr))"
proof -
  have "is_usernameInput el"
    using assms unfolding is_usernameInput_def attr_is_def attr_includes_def
    by (auto split: option.splits)
  then show ?thesis by (simp add: usernameInputs_def)
qed

theorem username_vocabulary_witness:
  "type email_field = ''input'' \<and>
   attributes email_field ''type'' = Some ''email'' \<and>
   attributes email_field ''name'' = Some ''email'' \<and>
   includes_str (toLowerCase ''email'') ''email'' \<and>
   email_field \<in> set (elements login_page) \<and>
   is_usernameInput email_field \<and> email_field \<in> set (usernameInputs login_page)"
proof -
  have t: "type email_field = ''input''"
    by (simp add: email_field_def)
  have a: "attributes email_field ''type'' = Some ''email''"
    by (simp add: email_field_def)
  have n: "attributes email_field ''name'' = Some ''email''"
    by (simp add: email_field_def)
  have i: "includes_str (toLowerCase ''email'') ''email''"
    by (simp add: str_simps)
  have m: "email_field \<in> set (elements login_page)"
    by (simp add: login_page_def)
  from username_vocabulary [of email_field login_page] t a n i m
  show ?thesis by blast
qed

text \<open>
  C9, as stated, fails: the link \<open>/Login\<close> normalizes to a URL that contains "login" in
  another casing and is enqueued; so is \<open>/user-login\<close>, which contains "login" but not
  "/login".
\<close>

theorem excluded_path_counterexample:
  "sample_URL ''/Login'' (Some startUrl)
     = Some (mk_URL ''https:'' ''www.testdummy.ai'' ''/Login'' '''' '''') \<and>
   cleanUrl (mk_URL ''https:'' ''www.testdummy.ai'' ''/Login'' '''' '''')
     = ''https://www.testdummy.ai/Login'' \<and>
   includes_str (toLowerCase ''https://www.testdummy.ai/Login'') ''login'' \<and>
   urlQueue (process_link sample_URL dashboard_URL startUrl start_state ''/Login'')
     = [''https://www.testdummy.ai/dashboard'', ''https://www.testdummy.ai/Login''] \<and>
   urlQueue start_state = [''https://www.testdummy.ai/dashboard''] \<and>
   sample_URL ''/user-login'' (Some startUrl)
     = Some (mk_URL ''https:'' ''www.testdummy.ai'' ''/user-login'' '''' '''') \<and>
   includes_str ''https://www.testdummy.ai/user-login'' ''login'' \<and>
   urlQueue (process_link sample_URL dashboard_URL startUrl start_state ''/user-login'')
     = [''https://www.testdummy.ai/dashboard'', ''https://www.testdummy.ai/user-login'']"
  by code_simp

text \<open>
  C9, amended. The excluded-path test is case-sensitive: a link whose normalized URL
  contains \<open>/login\<close>, \<open>/logout\<close>, \<open>/signin\<close> or \<open>/signout\<close> as written, in lower case and
  with the slash, is rejected and the state is unchanged.
\<close>

theorem excluded_path_case_sensitive:
  assumes "N l (Some p) = Some r" and "N (href r) None = Some u"
    and "includes_str (cleanUrl u) ''/login'' \<or> includes_str (cleanUrl u) ''/logout'' \<or>
         includes_str (cleanUrl u) ''/signin'' \<or> includes_str (cleanUrl u) ''/signout''"
  shows "process_link N b p st l = st"
  using assms by (simp add: process_link_def is_session_page_def)

theorem excluded_path_case_sensitive_witness:
  "sample_URL ''/login?x=1#y'' (Some startUrl)
     = Some (mk_URL ''https:'' ''www.testdummy.ai'' ''/login'' ''?x=1'' ''#y'') \<and>
   sample_URL (href (mk_URL ''https:'' ''www.testdummy.ai'' ''/login'' ''?x=1'' ''#y'')) None
     = Some (mk_URL ''https:'' ''www.testdummy.ai'' ''/login'' ''?x=1'' ''#y'') \<and>
   includes_str (cleanUrl (mk_URL ''https:'' ''www.testdummy.ai'' ''/login'' ''?x=1'' ''#y''))
     ''/login'' \<and>
   process_link sample_URL dashboard_URL startUrl start_state ''/login?x=1#y'' = start_state"
proof -
  let ?login = "mk_URL ''https:'' ''www.testdummy.ai'' ''/login'' ''?x=1'' ''#y''"
  have l1: "sample_URL ''/login?x=1#y'' (Some startUrl) = Some ?login"
    by code_simp
  have l2: "sample_URL (href ?login) None = Some ?login"
    by code_simp
  have l3: "includes_str (cleanUrl ?login) ''/login''"
    by code_simp
  from excluded_path_case_sensitive [OF l1 l2, of dashboard_URL start_state] l1 l2 l3
  show ?thesis by blast
qed

text \<open>
  C10. When exactly one element of the page is a search candidate, and it satisfies both
  the search-input and the search-button predicate, the search detector emits one action
  of confidence 0.9 whose elements are that element twice.
\<close>

theorem search_self_pairing:
  assumes "filter (\<lambda>el. is_searchInput el \<or> is_searchButton el) (elements cr) = [e]"
    and "is_searchInput e" and "is_searchButton e"
  shows "identifySearchInterfaces cr =
     [\<lparr>type_ua = ''search'', name_ua = ''Search'',
       description_ua = ''Search interface with input field and search button'',
       elements_ua = [e, e], url_ua = url cr, confidence = 0.9\<rparr>]"
proof -
  let ?both = "filter (\<lambda>el. is_searchInput el \<or> is_searchButton el) (elements cr)"
  have "searchInputs cr = filter is_searchInput ?both"
    by (auto simp: searchInputs_def intro: filter_cong)
  then have i: "searchInputs cr = [e]" using assms by simp
  have "searchButtons cr = filter is_searchButton ?both"
    by (auto simp: searchButtons_def intro: filter_cong)
  then have b: "searchButtons cr = [e]" using assms by simp
  show ?thesis
    by (simp add: identifySearchInterfaces_def i b search_step_def findNearbyElements_def
        full_search_def)
qed

theorem search_self_pairing_witness:
  "filter (\<lambda>el. is_searchInput el \<or> is_searchButton el) (elements search_page) = [search_box] \<and>
   is_searchInput search_box \<and> is_searchButton search_box \<and>
   identifySearchInterfaces search_page =
     [\<lparr>type_ua = ''search'', name_ua = ''Search'',
       description_ua = ''Search interface with input field and search button'',
       elements_ua = [search_box, search_box], url_ua = url search_page, confidence = 0.9\<rparr>]"
proof -
  have i: "is_searchInput search_box"
    by (simp add: search_box_def is_searchInput_def str_simps)
  have b: "is_searchButton search_box"
    by (simp add: search_box_def is_searchButton_def str_simps)
  have f: "filter (\<lambda>el. is_searchInput el \<or> is_searchButton el) (elements search_page)
           = [search_box]"
    by (simp add: search_page_def i)
  from search_self_pairing [OF f i b] f i b show ?thesis by simp
qed

end
